theory Spec2Isabelle
  imports Main "HOL-Library.Multiset"
begin

section \<open>Strings\<close>

text \<open>
  A Python \<open>str\<close> is a sequence of Unicode code points, so a string is a list of
  code points here. \<open>ascii\<close> reads an ASCII literal as such a string.
\<close>

type_synonym pystr = "nat list"
type_synonym url = pystr

definition ascii :: "string \<Rightarrow> pystr" where
  "ascii s = map of_char s"

text \<open>
  \<open>str.isspace\<close> for one code point, and \<open>str.strip()\<close> without argument, which
  removes the leading and the trailing whitespace of a string.
\<close>

definition isspace :: "nat \<Rightarrow> bool" where
  "isspace c \<longleftrightarrow>
     (0x09 \<le> c \<and> c \<le> 0x0D) \<or> (0x1C \<le> c \<and> c \<le> 0x20) \<or> c = 0x85 \<or> c = 0xA0 \<or>
     c = 0x1680 \<or> (0x2000 \<le> c \<and> c \<le> 0x200A) \<or> c = 0x2028 \<or> c = 0x2029 \<or>
     c = 0x202F \<or> c = 0x205F \<or> c = 0x3000"

definition strip :: "pystr \<Rightarrow> pystr" where
  "strip s = rev (dropWhile isspace (rev (dropWhile isspace s)))"

section \<open>Probes and what a run shows\<close>

text \<open>
  The module \<open>checker\<close> with \<open>site_is_online\<close> and \<open>site_is_online_async\<close> is not
  part of the sources, so both probes are parameters of the checks. A call of a probe
  on a URL either returns a truth value or raises an instance of \<open>Exception\<close>;
  \<open>Raised msg\<close> is such an exception \<open>err\<close> with \<open>str(err) = msg\<close>. The outcome of a
  probe is taken to depend on the URL only. Exceptions outside of the class
  \<open>Exception\<close> (\<open>KeyboardInterrupt\<close>, \<open>SystemExit\<close>), which the handlers of
  \<open>__main__.py\<close> do not name, are not part of the model.
\<close>

datatype probe_result = Returned bool | Raised pystr

text \<open>
  What a check does is recorded as a list of events: a probe is called on a URL, or
  \<open>display_check_result(result, url, error)\<close> is called.
\<close>

datatype event = Probe_call url | Display_check_result bool url pystr

fun probed :: "event list \<Rightarrow> url list" where
  "probed [] = []"
| "probed (Probe_call u # es) = u # probed es"
| "probed (Display_check_result r u e # es) = probed es"

fun displayed :: "event list \<Rightarrow> (url \<times> bool \<times> pystr) list" where
  "displayed [] = []"
| "displayed (Probe_call u # es) = displayed es"
| "displayed (Display_check_result r u e # es) = (u, r, e) # displayed es"

section \<open>The sequential check\<close>

text \<open>
  \<open>_synchronous_check(urls)\<close>: the \<open>for\<close> loop over \<open>urls\<close>, with the events so far
  passed along. (An Isabelle name cannot start with an underscore.)
\<close>

fun synchronous_check :: "(url \<Rightarrow> probe_result) \<Rightarrow> url list \<Rightarrow> event list \<Rightarrow> event list" where
  "synchronous_check site_is_online [] out = out"
| "synchronous_check site_is_online (url # rest) out =
     (let error = [];
          called = out @ [Probe_call url];
          (result, error) = (case site_is_online url of
                               Returned r \<Rightarrow> (r, error)
                             | Raised err \<Rightarrow> (False, err))
      in synchronous_check site_is_online rest (called @ [Display_check_result result url error]))"

section \<open>The concurrent check\<close>

text \<open>
  \<open>asyncio.gather(*(_check(url) for url in urls))\<close> makes one task per URL, in the
  order of \<open>urls\<close>, and returns when all of them are done. The event loop starts the
  tasks in that order; a started task calls the probe and waits for it, and when the
  probe is over the task goes on to the end of \<open>_check\<close>. Which waiting task goes on
  next is not decided by the program: it is a decision of the schedule, a parameter.
  \<open>Start\<close> lets the next task begin, \<open>Resume n\<close> lets the waiting task number
  \<open>n mod (number of waiting tasks)\<close> finish. A decision that cannot be followed (no task
  left to start, or none waiting) is replaced by the other one, and when the schedule is
  used up the tasks are started and finished in their order. The schedules give every
  order in which the probes of a batch can be over, and more interleavings of starts and
  ends than \<open>asyncio\<close> has: what holds under every schedule holds of every run.
\<close>

datatype decision = Start | Resume nat

definition drop_nth :: "nat \<Rightarrow> 'a list \<Rightarrow> 'a list" where
  "drop_nth k xs = take k xs @ drop (Suc k) xs"

text \<open>The rest of \<open>_check(url)\<close> once the awaited probe is over.\<close>

definition check :: "(url \<Rightarrow> probe_result) \<Rightarrow> url \<Rightarrow> event" where
  "check site_is_online_async url =
     (let error = [];
          (result, error) = (case site_is_online_async url of
                               Returned r \<Rightarrow> (r, error)
                             | Raised e \<Rightarrow> (False, e))
      in Display_check_result result url error)"

function event_loop ::
  "(url \<Rightarrow> probe_result) \<Rightarrow> decision list \<Rightarrow> url list \<Rightarrow> url list \<Rightarrow> event list \<Rightarrow> event list" where
  "event_loop site_is_online_async sched ready waiting out =
     (if ready = [] \<and> waiting = [] then out
      else if waiting = [] \<or> (ready \<noteq> [] \<and> (sched = [] \<or> hd sched = Start)) then
        event_loop site_is_online_async (tl sched) (tl ready) (waiting @ [hd ready])
          (out @ [Probe_call (hd ready)])
      else
        (let k = (case sched of Resume n # _ \<Rightarrow> n mod length waiting | _ \<Rightarrow> 0)
         in event_loop site_is_online_async (tl sched) ready (drop_nth k waiting)
              (out @ [check site_is_online_async (waiting ! k)])))"
  by pat_completeness auto
termination
  by (relation "measure (\<lambda>(p, sched, ready, waiting, out). 2 * length ready + length waiting)")
     (auto simp: drop_nth_def neq_Nil_conv min_def dest: leD split: list.splits decision.splits)

declare event_loop.simps [simp del]

definition asynchronous_check ::
  "(url \<Rightarrow> probe_result) \<Rightarrow> decision list \<Rightarrow> url list \<Rightarrow> event list" where
  "asynchronous_check site_is_online_async sched urls =
     event_loop site_is_online_async sched urls [] []"

section \<open>Finding the URLs and running the checks\<close>

text \<open>
  The parsed command line (\<open>read_user_cli_args\<close> of \<open>cli_argparse.py\<close>): the URLs of
  \<open>-u\<close> (default \<open>[]\<close>), the file of \<open>-f\<close> (default \<open>""\<close>) and the flag \<open>-a\<close>.
\<close>

record user_args =
  urls :: "url list"
  input_file :: pystr
  asynchronous :: bool

text \<open>
  The files: a path is a regular file with its lines, as iterating over the open file
  gives them, or it is none.
\<close>

type_synonym files = "pystr \<Rightarrow> pystr list option"

definition no_urls_message :: pystr where
  "no_urls_message = ascii ''Error: no URLs to check '' @ [0x2757]"

definition empty_file_message :: "pystr \<Rightarrow> pystr" where
  "empty_file_message file =
     ascii ''Error: empty input file, '' @ file @ ascii '' '' @ [0x1F937, 0x200D, 0x2640, 0xFE0F]"

definition not_found_message :: pystr where
  "not_found_message = ascii ''Error: input file not found '' @ [0x1F926, 0x200D, 0x2640, 0xFE0F]"

text \<open>
  \<open>_read_urls_from_file(file)\<close>: the URLs returned and the lines printed to the
  standard error stream.
\<close>

definition read_urls_from_file :: "files \<Rightarrow> pystr \<Rightarrow> url list \<times> pystr list" where
  "read_urls_from_file fs file =
     (case fs file of
        Some urls_file \<Rightarrow>
          (let found = map strip urls_file
           in if found \<noteq> [] then (found, []) else ([], [empty_file_message file]))
      | None \<Rightarrow> ([], [not_found_message]))"

text \<open>\<open>_get_websites_urls(user_args)\<close>; a non-empty string is true in Python.\<close>

definition get_websites_urls :: "files \<Rightarrow> user_args \<Rightarrow> url list \<times> pystr list" where
  "get_websites_urls fs args =
     (if input_file args \<noteq> [] then
        (let (found, printed) = read_urls_from_file fs (input_file args)
         in (urls args @ found, printed))
      else (urls args, []))"

text \<open>
  A run of the process: the lines on the standard error stream, the exit status, and
  the events of the check. \<open>sys.exit(1)\<close> ends the process with status 1; when \<open>main\<close>
  returns, \<open>raise SystemExit(main())\<close> ends it with status 0.
\<close>

record run =
  stderr :: "pystr list"
  exit_status :: nat
  events :: "event list"

definition main ::
  "files \<Rightarrow> (url \<Rightarrow> probe_result) \<Rightarrow> (url \<Rightarrow> probe_result) \<Rightarrow> decision list \<Rightarrow> user_args \<Rightarrow> run" where
  "main fs site_is_online site_is_online_async sched args =
     (let (found, printed) = get_websites_urls fs args
      in if found = [] then
           \<lparr>stderr = printed @ [no_urls_message], exit_status = 1, events = []\<rparr>
         else if asynchronous args then
           \<lparr>stderr = printed, exit_status = 0,
            events = asynchronous_check site_is_online_async sched found\<rparr>
         else
           \<lparr>stderr = printed, exit_status = 0,
            events = synchronous_check site_is_online found []\<rparr>)"

section \<open>Vocabulary of the properties\<close>

text \<open>
  What the display is given for a URL whose probe has the outcome \<open>p u\<close>: the URL, the
  result and the error detail.
\<close>

definition outcome :: "(url \<Rightarrow> probe_result) \<Rightarrow> url \<Rightarrow> url \<times> bool \<times> pystr" where
  "outcome p u = (case p u of Returned r \<Rightarrow> (u, r, []) | Raised msg \<Rightarrow> (u, False, msg))"

text \<open>
  A probe to run the checks on: one site is online, for one the probe returns \<open>False\<close>,
  for one it raises an exception with a message, and for every other URL it raises an
  exception whose \<open>str\<close> is empty, as \<open>Exception()\<close> or \<open>asyncio.TimeoutError()\<close> are.
\<close>

definition example_probe :: "url \<Rightarrow> probe_result" where
  "example_probe u =
     (if u = ascii ''a.example'' then Returned True
      else if u = ascii ''b.example'' then Returned False
      else if u = ascii ''c.example'' then Raised (ascii ''timed out'')
      else Raised [])"

text \<open>
  A second probe, for the concurrent check: it differs from the first on one URL only.
\<close>

definition example_probe_async :: "url \<Rightarrow> probe_result" where
  "example_probe_async u =
     (if u = ascii ''d.example'' then Raised (ascii ''no route'') else example_probe u)"

text \<open>A file system with one file of two lines, one file of blank lines and one empty file.\<close>

definition example_files :: files where
  "example_files file =
     (if file = ascii ''urls.txt'' then Some [ascii ''  a.example'' @ [10], ascii ''b.example '' @ [10]]
      else if file = ascii ''blank.txt'' then Some [[10], ascii ''  '' @ [9, 10]]
      else if file = ascii ''empty.txt'' then Some []
      else None)"

section \<open>Lemmas on the checks\<close>

lemma check_eq:
  "check p u = (case p u of Returned r \<Rightarrow> Display_check_result r u []
                | Raised msg \<Rightarrow> Display_check_result False u msg)"
  by (simp add: check_def split: probe_result.splits)

lemma sync_closed:
  "synchronous_check p us out = out @ concat (map (\<lambda>u. [Probe_call u, check p u]) us)"
  by (induction us arbitrary: out) (auto simp: check_def split: probe_result.splits)

lemma probed_append: "probed (xs @ ys) = probed xs @ probed ys"
  by (induction xs rule: probed.induct) auto

lemma displayed_append: "displayed (xs @ ys) = displayed xs @ displayed ys"
  by (induction xs rule: displayed.induct) auto

lemma probed_check: "probed [check p u] = []"
  by (simp add: check_eq split: probe_result.splits)

lemma displayed_check: "displayed [check p u] = [outcome p u]"
  by (simp add: check_eq outcome_def split: probe_result.splits)

lemma probed_sync: "probed (synchronous_check p us out) = probed out @ us"
  by (induction us arbitrary: out) (auto simp: probed_append split: probe_result.splits)

lemma displayed_sync: "displayed (synchronous_check p us out) = displayed out @ map (outcome p) us"
  by (induction us arbitrary: out)
     (auto simp: displayed_append outcome_def split: probe_result.splits)

lemma mset_drop_nth: "k < length xs \<Longrightarrow> add_mset (xs ! k) (mset (drop_nth k xs)) = mset xs"
  unfolding drop_nth_def
  by (metis Cons_nth_drop_Suc append_take_drop_id mset.simps(2) mset_append union_mset_add_mset_right)

lemma chosen_less:
  "waiting \<noteq> [] \<Longrightarrow> (case sched of Resume n # x \<Rightarrow> n mod length waiting | _ \<Rightarrow> 0) < length waiting"
  by (auto split: list.splits decision.splits)

lemma event_loop_done: "event_loop p sched [] [] out = out"
  by (simp add: event_loop.simps)

lemma event_loop_start:
  assumes "ready \<noteq> []" and "waiting = [] \<or> sched = [] \<or> hd sched = Start"
  shows "event_loop p sched ready waiting out =
           event_loop p (tl sched) (tl ready) (waiting @ [hd ready]) (out @ [Probe_call (hd ready)])"
  using assms by (subst event_loop.simps) auto

lemma event_loop_resume:
  assumes "\<not> (ready = [] \<and> waiting = [])"
    and "\<not> (waiting = [] \<or> (ready \<noteq> [] \<and> (sched = [] \<or> hd sched = Start)))"
    and "k = (case sched of Resume n # x \<Rightarrow> n mod length waiting | _ \<Rightarrow> 0)"
  shows "event_loop p sched ready waiting out =
           event_loop p (tl sched) ready (drop_nth k waiting) (out @ [check p (waiting ! k)])"
  using assms by (subst event_loop.simps) (auto simp: Let_def)

lemma probed_event_loop:
  "probed (event_loop p sched ready waiting out) = probed out @ ready"
proof (induction p sched ready waiting out rule: event_loop.induct)
  case (1 p sched ready waiting out)
  show ?case
  proof (cases "ready = [] \<and> waiting = []")
    case True
    then show ?thesis by (simp add: event_loop_done)
  next
    case busy: False
    show ?thesis
    proof (cases "waiting = [] \<or> (ready \<noteq> [] \<and> (sched = [] \<or> hd sched = Start))")
      case True
      with busy have ne: "ready \<noteq> []" and st: "waiting = [] \<or> sched = [] \<or> hd sched = Start"
        by auto
      from "1.IH"(1) [OF busy True] ne show ?thesis
        by (simp add: event_loop_start [OF ne st] probed_append)
    next
      case False
      from "1.IH"(2) [OF busy False refl] show ?thesis
        by (simp add: event_loop_resume [OF busy False refl] probed_append probed_check)
    qed
  qed
qed

lemma displayed_event_loop:
  "mset (displayed (event_loop p sched ready waiting out)) =
     mset (displayed out) + mset (map (outcome p) waiting) + mset (map (outcome p) ready)"
proof (induction p sched ready waiting out rule: event_loop.induct)
  case (1 p sched ready waiting out)
  show ?case
  proof (cases "ready = [] \<and> waiting = []")
    case True
    then show ?thesis by (simp add: event_loop_done)
  next
    case busy: False
    show ?thesis
    proof (cases "waiting = [] \<or> (ready \<noteq> [] \<and> (sched = [] \<or> hd sched = Start))")
      case True
      with busy have ne: "ready \<noteq> []" and st: "waiting = [] \<or> sched = [] \<or> hd sched = Start"
        by auto
      have "mset (map (outcome p) ready) =
            add_mset (outcome p (hd ready)) (mset (map (outcome p) (tl ready)))"
        using ne by (cases ready) auto
      with "1.IH"(1) [OF busy True] show ?thesis
        by (simp add: event_loop_start [OF ne st] displayed_append)
    next
      case False
      then have w: "waiting \<noteq> []" by simp
      define k where "k = (case sched of Resume n # x \<Rightarrow> n mod length waiting | _ \<Rightarrow> 0)"
      have k: "k < length waiting" unfolding k_def using w by (rule chosen_less)
      have "mset (map (outcome p) waiting) =
            add_mset (outcome p (waiting ! k)) (mset (map (outcome p) (drop_nth k waiting)))"
        using mset_drop_nth [OF k] by (metis image_mset_add_mset mset_map)
      with "1.IH"(2) [OF busy False k_def] show ?thesis
        by (simp add: event_loop_resume [OF busy False k_def] displayed_append displayed_check)
    qed
  qed
qed

lemma probed_async: "probed (asynchronous_check p sched us) = us"
  by (simp add: asynchronous_check_def probed_event_loop)

lemma displayed_async: "mset (displayed (asynchronous_check p sched us)) = mset (map (outcome p) us)"
  by (simp add: asynchronous_check_def displayed_event_loop)

lemma Display_in_set: "Display_check_result r u e \<in> set tr \<longleftrightarrow> (u, r, e) \<in> set (displayed tr)"
  by (induction tr rule: displayed.induct) auto

lemma outcome_eq_iff:
  "outcome p v = (u, r, e) \<longleftrightarrow>
     v = u \<and> (p u = Returned r \<and> e = [] \<or> p u = Raised e \<and> r = False)"
  by (auto simp: outcome_def split: probe_result.splits)

lemma in_outcome_image:
  "(u, r, e) \<in> outcome p ` set us \<longleftrightarrow>
     u \<in> set us \<and> (p u = Returned r \<and> e = [] \<or> p u = Raised e \<and> r = False)"
proof -
  have "(u, r, e) \<in> outcome p ` set us \<longleftrightarrow> (\<exists>v\<in>set us. outcome p v = (u, r, e))"
    by force
  then show ?thesis
    by (auto simp: outcome_eq_iff)
qed

lemma Display_in_sync_iff:
  "Display_check_result r u e \<in> set (synchronous_check p us []) \<longleftrightarrow>
     u \<in> set us \<and> (p u = Returned r \<and> e = [] \<or> p u = Raised e \<and> r = False)"
  by (simp add: Display_in_set displayed_sync in_outcome_image)

lemma set_displayed_async:
  "set (displayed (asynchronous_check q sched us)) = outcome q ` set us"
proof -
  have "set_mset (mset (displayed (asynchronous_check q sched us))) =
        set_mset (mset (map (outcome q) us))"
    by (simp only: displayed_async)
  then show ?thesis by simp
qed

lemma Display_in_async_iff:
  "Display_check_result r u e \<in> set (asynchronous_check q sched us) \<longleftrightarrow>
     u \<in> set us \<and> (q u = Returned r \<and> e = [] \<or> q u = Raised e \<and> r = False)"
  by (simp add: Display_in_set set_displayed_async in_outcome_image)

lemma fst_outcome: "fst (outcome p u) = u"
  by (simp add: outcome_def split: probe_result.splits)

lemma map_fst_outcome: "map fst (map (outcome p) us) = us"
  by (induction us) (simp_all add: fst_outcome)

lemma shown_urls_async: "mset (map fst (displayed (asynchronous_check q sched us))) = mset us"
proof -
  have "image_mset fst (mset (displayed (asynchronous_check q sched us))) =
        image_mset fst (mset (map (outcome q) us))"
    by (simp only: displayed_async)
  also have "\<dots> = mset (map fst (map (outcome q) us))"
    by (simp only: mset_map)
  also have "\<dots> = mset us"
    by (simp only: map_fst_outcome)
  finally show ?thesis
    by (simp only: mset_map)
qed

lemma length_displayed_async: "length (displayed (asynchronous_check q sched us)) = length us"
proof -
  have "size (mset (displayed (asynchronous_check q sched us))) = size (mset (map (outcome q) us))"
    by (simp only: displayed_async)
  then show ?thesis
    by simp
qed

section \<open>Lemmas on the input file and on \<open>main\<close>\<close>

text \<open>
  What \<open>strip\<close> removes is whitespace, at both ends, and all of it: the ends of a
  stripped string that is not empty are no whitespace.
\<close>

lemma last_dropWhile: "dropWhile P xs \<noteq> [] \<Longrightarrow> last (dropWhile P xs) = last xs"
  by (induction xs) (auto split: if_splits)

lemma strip_decomp:
  "\<exists>a b. s = a @ strip s @ b \<and> (\<forall>c\<in>set a. isspace c) \<and> (\<forall>c\<in>set b. isspace c)"
proof -
  define t where "t = dropWhile isspace s"
  have s: "s = takeWhile isspace s @ t"
    by (simp add: t_def)
  have "t = rev (takeWhile isspace (rev t) @ dropWhile isspace (rev t))"
    by (simp only: takeWhile_dropWhile_id rev_rev_ident)
  then have t: "t = strip s @ rev (takeWhile isspace (rev t))"
    by (simp only: rev_append strip_def t_def)
  have a: "\<forall>c\<in>set (takeWhile isspace s). isspace c"
    by (auto dest: set_takeWhileD)
  have b: "\<forall>c\<in>set (rev (takeWhile isspace (rev t))). isspace c"
    by (auto dest: set_takeWhileD)
  from s t have "s = takeWhile isspace s @ strip s @ rev (takeWhile isspace (rev t))"
    by simp
  with a b show ?thesis by blast
qed

lemma strip_ends:
  assumes "strip s \<noteq> []"
  shows "\<not> isspace (hd (strip s)) \<and> \<not> isspace (last (strip s))"
proof -
  define t where "t = dropWhile isspace s"
  from assms have d: "dropWhile isspace (rev t) \<noteq> []"
    by (simp add: strip_def t_def)
  then have tne: "t \<noteq> []" by auto
  have "hd (strip s) = last (dropWhile isspace (rev t))"
    using d by (simp add: strip_def t_def hd_rev)
  also have "\<dots> = last (rev t)"
    using d by (rule last_dropWhile)
  also have "\<dots> = hd t"
    using tne by (simp add: last_rev)
  finally have "hd (strip s) = hd (dropWhile isspace s)"
    by (simp add: t_def)
  moreover have "\<not> isspace (hd (dropWhile isspace s))"
    using tne unfolding t_def by (rule hd_dropWhile)
  moreover have "last (strip s) = hd (dropWhile isspace (rev t))"
    using d by (simp add: strip_def t_def last_rev)
  moreover have "\<not> isspace (hd (dropWhile isspace (rev t)))"
    using d by (rule hd_dropWhile)
  ultimately show ?thesis by simp
qed

lemma strip_blank:
  assumes "\<forall>c\<in>set l. isspace c"
  shows "strip l = []"
proof -
  from assms have "dropWhile isspace l = []"
    by (induction l) simp_all
  then show ?thesis
    unfolding strip_def by (simp only: rev.simps dropWhile.simps)
qed

lemma map_strip_blank:
  "\<forall>l\<in>set ls. \<forall>c\<in>set l. isspace c \<Longrightarrow> map strip ls = replicate (length ls) []"
  by (induction ls) (simp_all add: strip_blank)

lemma probed_main:
  "fst (get_websites_urls fs args) \<noteq> [] \<Longrightarrow>
   probed (events (main fs p q sched args)) = fst (get_websites_urls fs args)"
  by (simp add: main_def probed_sync probed_async split: prod.splits)

lemma exit_status_main:
  "exit_status (main fs p q sched args) = (if fst (get_websites_urls fs args) = [] then 1 else 0)"
  by (simp add: main_def split: prod.splits)

lemma events_main:
  "events (main fs p q sched args) =
     (if fst (get_websites_urls fs args) = [] then []
      else if asynchronous args then asynchronous_check q sched (fst (get_websites_urls fs args))
      else synchronous_check p (fst (get_websites_urls fs args)) [])"
  by (simp add: main_def split: prod.splits)

lemma stderr_main:
  "stderr (main fs p q sched args) =
     (if fst (get_websites_urls fs args) = [] then snd (get_websites_urls fs args) @ [no_urls_message]
      else snd (get_websites_urls fs args))"
  by (simp add: main_def split: prod.splits)

section \<open>The claims on the batch run\<close>

text \<open>
  Claim C3. In sequential mode the results come strictly in the order of the input, and
  the probe of a URL, with the capture of its exception, is over and shown before the
  probe of the next URL is called: the events of the run are, URL after URL in input
  order, the probe call followed at once by the display of its outcome.
\<close>

theorem sequential_in_input_order:
  "synchronous_check site_is_online us [] =
     concat (map (\<lambda>u. [Probe_call u,
                        case site_is_online u of
                          Returned r \<Rightarrow> Display_check_result r u []
                        | Raised msg \<Rightarrow> Display_check_result False u msg]) us)
   \<and> displayed (synchronous_check site_is_online us []) = map (outcome site_is_online) us"
proof
  show "synchronous_check site_is_online us [] =
     concat (map (\<lambda>u. [Probe_call u,
                        case site_is_online u of
                          Returned r \<Rightarrow> Display_check_result r u []
                        | Raised msg \<Rightarrow> Display_check_result False u msg]) us)"
    by (simp add: sync_closed check_eq)
  show "displayed (synchronous_check site_is_online us []) = map (outcome site_is_online) us"
    by (simp add: displayed_sync)
qed

text \<open>
  Claim C2. In either mode the run shows exactly one result for every URL of the input:
  in sequential mode the URLs shown are the input list itself, in concurrent mode they
  are the input up to order, under every schedule. (The property also holds for the
  empty input, which \<open>main\<close> never passes on.)
\<close>

theorem one_result_per_url:
  "map fst (displayed (synchronous_check p us [])) = us \<and>
   mset (map fst (displayed (asynchronous_check q sched us))) = mset us \<and>
   length (displayed (asynchronous_check q sched us)) = length us"
proof (intro conjI)
  show "map fst (displayed (synchronous_check p us [])) = us"
    by (simp add: displayed_sync map_fst_outcome del: map_map)
  show "mset (map fst (displayed (asynchronous_check q sched us))) = mset us"
    by (rule shown_urls_async)
  show "length (displayed (asynchronous_check q sched us)) = length us"
    by (rule length_displayed_async)
qed





text \<open>
  Claim C1, as stated, fails on the error detail: it is \<open>str(err)\<close>, and the \<open>str\<close> of
  an exception can be empty. A probe that raises such an exception has its URL shown
  as not reachable with the empty error detail, in both modes.
\<close>

theorem empty_error_detail_counterexample:
  "example_probe (ascii ''d.example'') = Raised [] \<and>
   synchronous_check example_probe [ascii ''d.example''] [] =
     [Probe_call (ascii ''d.example''), Display_check_result False (ascii ''d.example'') []] \<and>
   asynchronous_check example_probe [] [ascii ''d.example''] =
     [Probe_call (ascii ''d.example''), Display_check_result False (ascii ''d.example'') []]"
  by (simp add: asynchronous_check_def event_loop.simps drop_nth_def check_def
        example_probe_def ascii_def)

text \<open>
  Claim C1, amended. If the probe of a URL of the batch raises an exception (an instance
  of \<open>Exception\<close>) with \<open>str\<close> \<open>msg\<close>, the run, in both modes and under every
  schedule, shows that URL as not reachable with the error detail \<open>msg\<close> (which may
  be empty), and shows nothing else for it; the run returns its events, so the
  exception has not left it.
\<close>

theorem raised_probe_shown_offline:
  assumes "u \<in> set us"
  shows "(site_is_online u = Raised msg \<longrightarrow>
            Display_check_result False u msg \<in> set (synchronous_check site_is_online us []) \<and>
            (\<forall>r e. Display_check_result r u e \<in> set (synchronous_check site_is_online us [])
                \<longrightarrow> r = False \<and> e = msg)) \<and>
         (site_is_online_async u = Raised msg \<longrightarrow>
            Display_check_result False u msg \<in> set (asynchronous_check site_is_online_async sched us) \<and>
            (\<forall>r e. Display_check_result r u e \<in> set (asynchronous_check site_is_online_async sched us)
                \<longrightarrow> r = False \<and> e = msg))"
  using assms by (simp add: Display_in_sync_iff Display_in_async_iff)

theorem raised_probe_shown_offline_witness:
  "ascii ''c.example'' \<in> set [ascii ''a.example'', ascii ''c.example''] \<and>
   example_probe (ascii ''c.example'') = Raised (ascii ''timed out'') \<and>
   Display_check_result False (ascii ''c.example'') (ascii ''timed out'')
     \<in> set (synchronous_check example_probe [ascii ''a.example'', ascii ''c.example''] []) \<and>
   Display_check_result False (ascii ''c.example'') (ascii ''timed out'')
     \<in> set (asynchronous_check example_probe [Start, Start, Resume 1]
              [ascii ''a.example'', ascii ''c.example''])"
  using raised_probe_shown_offline
    [of "ascii ''c.example''" "[ascii ''a.example'', ascii ''c.example'']" example_probe
        "ascii ''timed out''" example_probe "[Start, Start, Resume 1]"]
  by (simp add: example_probe_def ascii_def)

text \<open>
  Claim C8. In both modes, a result that is shown for a URL whose probe returns
  \<open>False\<close> without raising has the empty error detail, and such a URL of the batch is
  shown so; an error detail that is not empty comes from a probe that raised, and it
  is the \<open>str\<close> of the exception.
\<close>

theorem error_detail_only_from_exception:
  "(Display_check_result r u e \<in> set (synchronous_check site_is_online us []) \<longrightarrow>
      (site_is_online u = Returned False \<longrightarrow> e = []) \<and>
      (e \<noteq> [] \<longrightarrow> site_is_online u = Raised e)) \<and>
   (Display_check_result r u e \<in> set (asynchronous_check site_is_online_async sched us) \<longrightarrow>
      (site_is_online_async u = Returned False \<longrightarrow> e = []) \<and>
      (e \<noteq> [] \<longrightarrow> site_is_online_async u = Raised e)) \<and>
   (u \<in> set us \<and> site_is_online u = Returned False \<longrightarrow>
      Display_check_result False u [] \<in> set (synchronous_check site_is_online us [])) \<and>
   (u \<in> set us \<and> site_is_online_async u = Returned False \<longrightarrow>
      Display_check_result False u [] \<in> set (asynchronous_check site_is_online_async sched us))"
  by (auto simp: Display_in_sync_iff Display_in_async_iff)

theorem error_detail_only_from_exception_witness:
  "ascii ''b.example'' \<in> set [ascii ''b.example'', ascii ''c.example''] \<and>
   example_probe (ascii ''b.example'') = Returned False \<and>
   Display_check_result False (ascii ''b.example'') []
     \<in> set (synchronous_check example_probe [ascii ''b.example'', ascii ''c.example''] []) \<and>
   Display_check_result False (ascii ''b.example'') []
     \<in> set (asynchronous_check example_probe [Start, Start, Resume 1]
              [ascii ''b.example'', ascii ''c.example'']) \<and>
   Display_check_result False (ascii ''c.example'') (ascii ''timed out'')
     \<in> set (synchronous_check example_probe [ascii ''b.example'', ascii ''c.example''] []) \<and>
   Display_check_result False (ascii ''c.example'') (ascii ''timed out'')
     \<in> set (asynchronous_check example_probe [Start, Start, Resume 1]
              [ascii ''b.example'', ascii ''c.example'']) \<and>
   ascii ''timed out'' \<noteq> [] \<and>
   example_probe (ascii ''c.example'') = Raised (ascii ''timed out'')"
  using error_detail_only_from_exception
    [of False "ascii ''b.example''" "[]" example_probe
        "[ascii ''b.example'', ascii ''c.example'']" example_probe "[Start, Start, Resume 1]"]
    error_detail_only_from_exception
    [of False "ascii ''c.example''" "ascii ''timed out''" example_probe
        "[ascii ''b.example'', ascii ''c.example'']" example_probe "[Start, Start, Resume 1]"]
  by (simp add: asynchronous_check_def event_loop.simps drop_nth_def check_def
        example_probe_def ascii_def)

section \<open>The claims on the input file and on the process\<close>

text \<open>
  Claim C6. When the URLs of the command line and those read from the input file are
  together none, the process prints an error message to the standard error stream (after
  whatever reading the file printed), ends with the exit status 1, and no probe is called
  and nothing is displayed.
\<close>

theorem no_urls_is_an_error:
  assumes "fst (get_websites_urls fs args) = []"
  shows "stderr (main fs site_is_online site_is_online_async sched args) =
           snd (get_websites_urls fs args) @ [no_urls_message] \<and>
         no_urls_message \<noteq> [] \<and>
         exit_status (main fs site_is_online site_is_online_async sched args) = 1 \<and>
         events (main fs site_is_online site_is_online_async sched args) = []"
  using assms by (simp add: stderr_main exit_status_main events_main no_urls_message_def)

theorem no_urls_is_an_error_witness:
  "fst (get_websites_urls example_files
          \<lparr>urls = [], input_file = ascii ''empty.txt'', asynchronous = True\<rparr>) = [] \<and>
   stderr (main example_files example_probe example_probe_async []
          \<lparr>urls = [], input_file = ascii ''empty.txt'', asynchronous = True\<rparr>) =
     [empty_file_message (ascii ''empty.txt''), no_urls_message] \<and>
   exit_status (main example_files example_probe example_probe_async []
          \<lparr>urls = [], input_file = ascii ''empty.txt'', asynchronous = True\<rparr>) = 1 \<and>
   events (main example_files example_probe example_probe_async []
          \<lparr>urls = [], input_file = ascii ''empty.txt'', asynchronous = True\<rparr>) = []"
  using no_urls_is_an_error
    [of example_files "\<lparr>urls = [], input_file = ascii ''empty.txt'', asynchronous = True\<rparr>"
        example_probe example_probe_async "[]"]
  by (simp add: get_websites_urls_def read_urls_from_file_def example_files_def ascii_def)

text \<open>
  Claim C7. When an input file is given (a path that is not the empty string), exists and
  has at least one line, its lines are stripped of the whitespace at their ends and follow
  the URLs of the command line, and nothing is printed; when the file does not exist or
  has no line, an error message is printed and the URLs are those of the command line.
\<close>

theorem input_file_urls_appended:
  assumes "input_file args \<noteq> []"
  shows "(fs (input_file args) = Some ls \<and> ls \<noteq> [] \<longrightarrow>
            get_websites_urls fs args = (urls args @ map strip ls, [])) \<and>
         (fs (input_file args) = None \<longrightarrow>
            get_websites_urls fs args = (urls args, [not_found_message])) \<and>
         (fs (input_file args) = Some [] \<longrightarrow>
            get_websites_urls fs args = (urls args, [empty_file_message (input_file args)]))"
  using assms by (simp add: get_websites_urls_def read_urls_from_file_def)

theorem input_file_urls_appended_witness:
  "ascii ''urls.txt'' \<noteq> [] \<and>
   example_files (ascii ''urls.txt'') =
     Some [ascii ''  a.example'' @ [10], ascii ''b.example '' @ [10]] \<and>
   get_websites_urls example_files
     \<lparr>urls = [ascii ''c.example''], input_file = ascii ''urls.txt'', asynchronous = False\<rparr> =
     ([ascii ''c.example'', ascii ''a.example'', ascii ''b.example''], []) \<and>
   example_files (ascii ''missing.txt'') = None \<and>
   get_websites_urls example_files
     \<lparr>urls = [ascii ''c.example''], input_file = ascii ''missing.txt'', asynchronous = False\<rparr> =
     ([ascii ''c.example''], [not_found_message]) \<and>
   example_files (ascii ''empty.txt'') = Some [] \<and>
   get_websites_urls example_files
     \<lparr>urls = [ascii ''c.example''], input_file = ascii ''empty.txt'', asynchronous = False\<rparr> =
     ([ascii ''c.example''], [empty_file_message (ascii ''empty.txt'')])"
  using input_file_urls_appended
    [of "\<lparr>urls = [ascii ''c.example''], input_file = ascii ''urls.txt'', asynchronous = False\<rparr>"
        example_files "[ascii ''  a.example'' @ [10], ascii ''b.example '' @ [10]]"]
    input_file_urls_appended
    [of "\<lparr>urls = [ascii ''c.example''], input_file = ascii ''missing.txt'', asynchronous = False\<rparr>"
        example_files "[]"]
    input_file_urls_appended
    [of "\<lparr>urls = [ascii ''c.example''], input_file = ascii ''empty.txt'', asynchronous = False\<rparr>"
        example_files "[]"]
  by (simp add: example_files_def ascii_def strip_def isspace_def)

text \<open>
  Claim C9. A file that exists and has at least one line, all of whose lines are
  whitespace only, is not taken for empty: the reader returns one empty string per line
  and prints nothing, and \<open>main\<close> goes on to call the probe on these empty URLs.
\<close>

theorem blank_lines_become_empty_urls:
  assumes "fs file = Some ls" and "ls \<noteq> []" and "\<forall>l\<in>set ls. \<forall>c\<in>set l. isspace c"
  shows "read_urls_from_file fs file = (replicate (length ls) [], []) \<and>
         (file \<noteq> [] \<and> input_file args = file \<longrightarrow>
            get_websites_urls fs args = (urls args @ replicate (length ls) [], []) \<and>
            exit_status (main fs site_is_online site_is_online_async sched args) = 0 \<and>
            probed (events (main fs site_is_online site_is_online_async sched args)) =
              urls args @ replicate (length ls) [])"
proof (intro conjI impI)
  from assms show r: "read_urls_from_file fs file = (replicate (length ls) [], [])"
    by (simp add: read_urls_from_file_def map_strip_blank)
  assume f: "file \<noteq> [] \<and> input_file args = file"
  with r show g: "get_websites_urls fs args = (urls args @ replicate (length ls) [], [])"
    by (simp add: get_websites_urls_def)
  from assms(2) have ne: "fst (get_websites_urls fs args) \<noteq> []"
    by (simp add: g)
  then show "exit_status (main fs site_is_online site_is_online_async sched args) = 0"
    by (simp add: exit_status_main)
  from ne show "probed (events (main fs site_is_online site_is_online_async sched args)) =
      urls args @ replicate (length ls) []"
    by (simp add: probed_main g)
qed

theorem blank_lines_become_empty_urls_witness:
  "example_files (ascii ''blank.txt'') = Some [[10], ascii ''  '' @ [9, 10]] \<and>
   isspace 10 \<and> isspace 9 \<and> isspace 32 \<and>
   read_urls_from_file example_files (ascii ''blank.txt'') = ([[], []], []) \<and>
   probed (events (main example_files example_probe example_probe_async []
     \<lparr>urls = [], input_file = ascii ''blank.txt'', asynchronous = False\<rparr>)) = [[], []] \<and>
   events (main example_files example_probe example_probe_async []
     \<lparr>urls = [], input_file = ascii ''blank.txt'', asynchronous = False\<rparr>) =
     [Probe_call [], Display_check_result False [] [],
      Probe_call [], Display_check_result False [] []]"
  using blank_lines_become_empty_urls
    [of example_files "ascii ''blank.txt''" "[[10], ascii ''  '' @ [9, 10]]"
        "\<lparr>urls = [], input_file = ascii ''blank.txt'', asynchronous = False\<rparr>"
        example_probe example_probe_async "[]"]
  by (simp add: example_files_def ascii_def isspace_def events_main example_probe_def)

text \<open>
  Claim C10. An input file that does not exist or has no line does not end the run: the
  reader prints one error message and returns the empty list, the URLs of the command
  line are checked as without the file and the exit status is 0 when there are any, and
  the exit status is not 0 exactly when the URLs found are none.
\<close>

theorem bad_input_file_does_not_abort:
  assumes "input_file args \<noteq> []"
    and "fs (input_file args) = None \<or> fs (input_file args) = Some []"
  shows "read_urls_from_file fs (input_file args) =
           ([], [if fs (input_file args) = None then not_found_message
                 else empty_file_message (input_file args)]) \<and>
         fst (get_websites_urls fs args) = urls args \<and>
         (urls args \<noteq> [] \<longrightarrow>
            exit_status (main fs site_is_online site_is_online_async sched args) = 0 \<and>
            events (main fs site_is_online site_is_online_async sched args) =
              (if asynchronous args then asynchronous_check site_is_online_async sched (urls args)
               else synchronous_check site_is_online (urls args) [])) \<and>
         (exit_status (main fs site_is_online site_is_online_async sched args) \<noteq> 0
            \<longleftrightarrow> fst (get_websites_urls fs args) = [])"
proof (intro conjI)
  from assms(2) show r: "read_urls_from_file fs (input_file args) =
           ([], [if fs (input_file args) = None then not_found_message
                 else empty_file_message (input_file args)])"
    by (auto simp: read_urls_from_file_def)
  from assms(1) r show g: "fst (get_websites_urls fs args) = urls args"
    by (simp add: get_websites_urls_def)
  show "urls args \<noteq> [] \<longrightarrow>
            exit_status (main fs site_is_online site_is_online_async sched args) = 0 \<and>
            events (main fs site_is_online site_is_online_async sched args) =
              (if asynchronous args then asynchronous_check site_is_online_async sched (urls args)
               else synchronous_check site_is_online (urls args) [])"
    by (simp add: exit_status_main events_main g)
  show "exit_status (main fs site_is_online site_is_online_async sched args) \<noteq> 0
            \<longleftrightarrow> fst (get_websites_urls fs args) = []"
    by (simp add: exit_status_main)
qed

theorem bad_input_file_does_not_abort_witness:
  "ascii ''missing.txt'' \<noteq> [] \<and> example_files (ascii ''missing.txt'') = None \<and>
   read_urls_from_file example_files (ascii ''missing.txt'') = ([], [not_found_message]) \<and>
   main example_files example_probe example_probe_async []
     \<lparr>urls = [ascii ''a.example''], input_file = ascii ''missing.txt'', asynchronous = False\<rparr> =
     \<lparr>stderr = [not_found_message], exit_status = 0,
      events = [Probe_call (ascii ''a.example''),
                Display_check_result True (ascii ''a.example'') []]\<rparr>"
  using bad_input_file_does_not_abort
    [of "\<lparr>urls = [ascii ''a.example''], input_file = ascii ''missing.txt'', asynchronous = False\<rparr>"
        example_files example_probe example_probe_async "[]"]
  by (simp add: example_files_def ascii_def main_def get_websites_urls_def
        read_urls_from_file_def example_probe_def)

end
